theory Spec2Isabelle
  imports Main "HOL-Library.Word"
begin

unbundle bit_operations_syntax

section \<open>A shallow embedding of the FTP client (package ftp)\<close>

text \<open>
  The development follows the Go sources: the reply reader and the command channel of
  \<^verbatim>\<open>client.go\<close>, the address negotiator (\<^verbatim>\<open>obtainPassiveAddress\<close>,
  \<^verbatim>\<open>parsePasvReply\<close>, \<^verbatim>\<open>parseEpsvReply\<close>) and the data channel lifecycle of
  \<^verbatim>\<open>transfer.go\<close>. Go strings are byte sequences and are modelled as \<^typ>\<open>string\<close>;
  Go's \<^verbatim>\<open>int\<close> is the 64-bit integer of the usual platforms, modelled as \<^typ>\<open>int\<close>
  with the saturation of \<^verbatim>\<open>strconv\<close> written out; \<^verbatim>\<open>byte\<close> is \<^typ>\<open>8 word\<close>.
  A Go result pair \<^verbatim>\<open>(v, err)\<close> is a pair whose second component is an
  \<^verbatim>\<open>error option\<close>, \<^term>\<open>None\<close> for \<^verbatim>\<open>nil\<close>, because several functions of the
  package return a value together with a non-nil error.
\<close>

subsection \<open>Replies and errors\<close>

text \<open>The struct \<^verbatim>\<open>Reply{Code, Msg}\<close>; \<^verbatim>\<open>Reply{}\<close> is its zero value.\<close>

record Reply =
  Code :: int
  Msg :: string

definition Reply0 :: Reply where
  "Reply0 = \<lparr>Code = 0, Msg = []\<rparr>"

datatype numerr = ErrSyntax | ErrRange

text \<open>
  The error values that occur: \<^verbatim>\<open>errors.New(text)\<close>, the \<^verbatim>\<open>*strconv.NumError\<close> of
  \<^verbatim>\<open>Atoi\<close> (with the offending string), a \<^verbatim>\<open>Reply\<close> used as an error, \<^verbatim>\<open>io.EOF\<close>,
  any other failure of a transport, and the two errors of a context.
\<close>

datatype error =
    ErrNew string
  | NumError string numerr
  | ReplyErr Reply
  | EOF
  | IOErr string
  | Canceled
  | DeadlineExceeded

text \<open>
  Modelled from the spec: the file that declares \<^verbatim>\<open>Code\<close>, its constants and the
  classification predicates of \<^verbatim>\<open>Reply\<close> is not among the sources. Section 4.1 of the
  specification gives the predicates (2xx is a positive completion; 1xx, 2xx and 3xx are
  positive), and the passive and extended-passive codes are the ones the replies of the
  parser tests carry, 227 and 229.
\<close>

definition CodePassive :: int where
  "CodePassive = 227"

definition CodeExtendedPassive :: int where
  "CodeExtendedPassive = 229"

definition PositiveComplete :: "Reply \<Rightarrow> bool" where
  "PositiveComplete r = (Code r div 100 = 2)"

definition Positive :: "Reply \<Rightarrow> bool" where
  "Positive r = (Code r div 100 = 1 \<or> Code r div 100 = 2 \<or> Code r div 100 = 3)"

subsection \<open>The library functions the package calls\<close>

definition is_digit :: "char \<Rightarrow> bool" where
  "is_digit c = (c \<in> set ''0123456789'')"

definition digit_val :: "char \<Rightarrow> nat" where
  "digit_val c = of_char c - 48"

definition digit_char :: "nat \<Rightarrow> char" where
  "digit_char n = ''0123456789'' ! n"

text \<open>
  The digit loop of \<^verbatim>\<open>strconv.ParseUint(s, 10, 64)\<close>: bytes are consumed from the left;
  a byte that is no decimal digit is a syntax error, and a value that leaves the
  unsigned 64-bit range is a range error, whichever comes first.
\<close>

fun parse_digits :: "nat \<Rightarrow> string \<Rightarrow> numerr + nat" where
  "parse_digits n [] = Inr n"
| "parse_digits n (c # cs) =
     (if \<not> is_digit c then Inl ErrSyntax
      else if n * 10 + digit_val c > 2 ^ 64 - 1 then Inl ErrRange
      else parse_digits (n * 10 + digit_val c) cs)"

text \<open>
  \<^verbatim>\<open>strconv.Atoi\<close>: an optional sign, then at least one digit. On a syntax error the
  value is 0; on a range error it is the nearest 64-bit bound. Both come with a
  \<^verbatim>\<open>NumError\<close> that names the input.
\<close>

definition Atoi :: "string \<Rightarrow> int \<times> error option" where
  "Atoi s =
     (if s = [] then (0, Some (NumError s ErrSyntax))
      else
        let neg = (hd s = CHR ''-'');
            body = (if hd s = CHR ''-'' \<or> hd s = CHR ''+'' then tl s else s)
        in if body = [] then (0, Some (NumError s ErrSyntax))
           else (case parse_digits 0 body of
               Inl ErrSyntax \<Rightarrow> (0, Some (NumError s ErrSyntax))
             | Inl ErrRange \<Rightarrow>
                 (if neg then - (2 ^ 63) else 2 ^ 63 - 1, Some (NumError s ErrRange))
             | Inr un \<Rightarrow>
                 if \<not> neg \<and> un \<ge> 2 ^ 63 then (2 ^ 63 - 1, Some (NumError s ErrRange))
                 else if neg \<and> un > 2 ^ 63 then (- (2 ^ 63), Some (NumError s ErrRange))
                 else (if neg then - int un else int un, None)))"

text \<open>\<^verbatim>\<open>strconv.Itoa\<close>: the decimal numeral, with a minus sign for a negative number.\<close>

fun digits_of :: "nat \<Rightarrow> string" where
  "digits_of n =
     (if n < 10 then [digit_char n] else digits_of (n div 10) @ [digit_char (n mod 10)])"

definition Itoa :: "int \<Rightarrow> string" where
  "Itoa i = (if i < 0 then CHR ''-'' # digits_of (nat (- i)) else digits_of (nat i))"

text \<open>\<^verbatim>\<open>strings.HasPrefix\<close> and \<^verbatim>\<open>strings.Join\<close>.\<close>

definition HasPrefix :: "string \<Rightarrow> string \<Rightarrow> bool" where
  "HasPrefix s p = (take (length p) s = p)"

fun Join :: "string list \<Rightarrow> string \<Rightarrow> string" where
  "Join [] sep = []"
| "Join [x] sep = x"
| "Join (x # y # ys) sep = x @ sep @ Join (y # ys) sep"

text \<open>
  \<^verbatim>\<open>strings.LastIndex(s, substr)\<close>: the greatest index at which \<^verbatim>\<open>substr\<close> occurs in
  \<^verbatim>\<open>s\<close>, or -1. The candidates are tried from the right.
\<close>

definition occurs_at :: "string \<Rightarrow> string \<Rightarrow> nat \<Rightarrow> bool" where
  "occurs_at sub s i = (i + length sub \<le> length s \<and> take (length sub) (drop i s) = sub)"

definition LastIndex :: "string \<Rightarrow> string \<Rightarrow> int" where
  "LastIndex s sub =
     (case filter (occurs_at sub s) (rev [0..<Suc (length s)]) of
        [] \<Rightarrow> - 1
      | i # _ \<Rightarrow> int i)"

subsection \<open>The client and its connections\<close>

text \<open>
  What a call of \<^verbatim>\<open>ReadLine\<close> on the control connection finds: a line (without its line
  ending) or a failure of the transport. Once the script of the server is used up the
  transport is at its end and every read fails with \<^verbatim>\<open>io.EOF\<close>, as with the buffer of
  the tests.
\<close>

datatype read_event = Line string | ReadFail error

record TCPAddr =
  IP :: "8 word list"
  Port :: int

text \<open>The observable actions on the two connections, in the order they happen.\<close>

datatype event =
    Wrote string
  | ReadLn
  | Dialed TCPAddr
  | ClosedData

text \<open>
  A client together with the world it talks to: the lines still to come on the control
  connection, whether a write on it fails, the network name and the IP of the peer
  (\<^verbatim>\<open>c.conn.RemoteAddr()\<close>, taken to be a TCP address where the source asserts so),
  whether dialling or closing a data connection fails, and the actions so far.
\<close>

record client =
  incoming :: "read_event list"
  write_fails :: "error option"
  remote_network :: string
  remote_ip :: "8 word list"
  dial_fails :: "error option"
  data_close_fails :: "error option"
  trace :: "event list"

definition ReadLine :: "client \<Rightarrow> (string \<times> error option) \<times> client" where
  "ReadLine c =
     (case incoming c of
        [] \<Rightarrow> (([], Some EOF), c\<lparr>trace := trace c @ [ReadLn]\<rparr>)
      | Line l # rest \<Rightarrow> ((l, None), c\<lparr>incoming := rest, trace := trace c @ [ReadLn]\<rparr>)
      | ReadFail e # rest \<Rightarrow> (([], Some e), c\<lparr>incoming := rest, trace := trace c @ [ReadLn]\<rparr>))"

text \<open>\<^verbatim>\<open>PrintfLine("%s", command)\<close> writes the command and the line ending CR LF.\<close>

definition PrintfLine :: "string \<Rightarrow> client \<Rightarrow> error option \<times> client" where
  "PrintfLine command c =
     (case write_fails c of
        Some e \<Rightarrow> (Some e, c)
      | None \<Rightarrow> (None, c\<lparr>trace := trace c @ [Wrote (command @ [CHR 0x0D, CHR 0x0A])]\<rparr>))"

subsection \<open>The reply reader\<close>

text \<open>
  The loop of \<^verbatim>\<open>response\<close> for a multi-line reply: it reads until a read fails or a
  line begins with \<^verbatim>\<open>endPrefix\<close>, and returns the lines gathered and the last error.
\<close>

function read_rest :: "string \<Rightarrow> string list \<Rightarrow> client \<Rightarrow> (string list \<times> error option) \<times> client" where
  "read_rest endPrefix lines c =
     (case ReadLine c of
        ((line, Some err), c') \<Rightarrow> ((lines, Some err), c')
      | ((line, None), c') \<Rightarrow>
          if HasPrefix line endPrefix
          then ((lines @ [drop (length endPrefix) line], None), c')
          else read_rest endPrefix (lines @ [line]) c')"
  by pat_completeness auto
termination
  by (relation "measure (\<lambda>(p, ls, c). length (incoming c))")
     (auto simp: ReadLine_def split: list.splits read_event.splits)

definition response :: "client \<Rightarrow> (Reply \<times> error option) \<times> client" where
  "response c =
     (case ReadLine c of
        ((line, Some err), c1) \<Rightarrow> ((Reply0, Some err), c1)
      | ((line, None), c1) \<Rightarrow>
          if length line < 4 then ((Reply0, Some (ErrNew ''Short response line in FTP'')), c1)
          else (case Atoi (take 3 line) of
              (code, Some err) \<Rightarrow> ((Reply0, Some err), c1)
            | (code, None) \<Rightarrow>
                if line ! 3 = CHR ''-'' then
                  (case read_rest (Itoa code @ '' '') [drop 4 line] c1 of
                     ((lines, err), c2) \<Rightarrow> ((\<lparr>Code = code, Msg = Join lines [CHR 0x0A]\<rparr>, err), c2))
                else if line ! 3 = CHR '' '' then ((\<lparr>Code = code, Msg = drop 4 line\<rparr>, None), c1)
                else ((Reply0, Some (ErrNew ''Expected space after FTP response code'')), c1)))"

subsection \<open>The command channel\<close>

text \<open>
  \<^verbatim>\<open>sendCmd\<close> of \<^verbatim>\<open>client.go\<close>: the write and the read of the reply as one unit. The
  revisions without a context call this unit \<^verbatim>\<open>sendCommand\<close>.
\<close>

definition sendCmd :: "string \<Rightarrow> client \<Rightarrow> (Reply \<times> error option) \<times> client" where
  "sendCmd command c =
     (case PrintfLine command c of
        (Some err, c1) \<Rightarrow> ((Reply0, Some err), c1)
      | (None, c1) \<Rightarrow> response c1)"

text \<open>
  A context. \<^verbatim>\<open>ctx.Done() == nil\<close> holds for the background context only. For a
  cancellable context the model fixes how the race of one call ends: the cancellation
  signal is ready before the background unit has finished (\<open>FiresFirst\<close>), it arrives
  only after the unit has run to its end (\<open>FiresLater\<close>), or it never arrives. The
  error is \<^verbatim>\<open>ctx.Err()\<close>.
\<close>

datatype cancellation = NeverFires | FiresFirst error | FiresLater error

datatype Context = Background | Cancellable cancellation

text \<open>
  The \<^verbatim>\<open>select\<close> of \<^verbatim>\<open>readWelcome\<close> and \<^verbatim>\<open>sendCommand\<close> over the result channel and
  \<^verbatim>\<open>ctx.Done()\<close>. \<open>delivered\<close> is what the background unit sends on the channel when it
  finishes, \<^term>\<open>None\<close> if it sends nothing. The result \<^term>\<open>None\<close> stands for a caller that
  waits for ever.
\<close>

definition select_result ::
  "cancellation \<Rightarrow> (Reply \<times> error option) option \<Rightarrow> (Reply \<times> error option) option" where
  "select_result k delivered =
     (case k of
        FiresFirst e \<Rightarrow> Some (Reply0, Some e)
      | FiresLater e \<Rightarrow> (case delivered of Some r \<Rightarrow> Some r | None \<Rightarrow> Some (Reply0, Some e))
      | NeverFires \<Rightarrow> delivered)"

text \<open>
  \<^verbatim>\<open>readWelcome\<close>: the goroutine sends the result of \<^verbatim>\<open>response\<close> on the channel. The
  goroutine is never interrupted, so the client is in the state the unit leaves behind.
\<close>

definition readWelcome :: "Context \<Rightarrow> client \<Rightarrow> ((Reply \<times> error option) \<times> client) option" where
  "readWelcome ctx c =
     (case ctx of
        Background \<Rightarrow> Some (response c)
      | Cancellable k \<Rightarrow>
          (case response c of (r, c') \<Rightarrow>
             map_option (\<lambda>x. (x, c')) (select_result k (Some r))))"

text \<open>
  \<^verbatim>\<open>sendCommand\<close> of \<^verbatim>\<open>client.go\<close>: with a cancellable context the statement
  \<^verbatim>\<open>go c.sendCmd(command)\<close> runs the unit and drops what it returns; nothing is ever sent
  on the channel \<^verbatim>\<open>result\<close>.
\<close>

definition sendCommand ::
  "Context \<Rightarrow> string \<Rightarrow> client \<Rightarrow> ((Reply \<times> error option) \<times> client) option" where
  "sendCommand ctx command c =
     (case ctx of
        Background \<Rightarrow> Some (sendCmd command c)
      | Cancellable k \<Rightarrow>
          (case sendCmd command c of (r, c') \<Rightarrow>
             map_option (\<lambda>x. (x, c')) (select_result k None)))"

subsection \<open>The address negotiator\<close>

text \<open>
  \<^verbatim>\<open>pasvRegexp\<close> is six groups \<^verbatim>\<open>([0-9]+)\<close> separated by commas. A match that starts at
  the head of \<open>s\<close> takes for each group the whole run of digits there: a shorter run
  would be followed by a digit and not by the comma, and the last group is greedy.
  \<open>pasv_groups n s\<close> matches one group and then \<open>n\<close> more, each after a comma.
\<close>

primrec pasv_groups :: "nat \<Rightarrow> string \<Rightarrow> string list option" where
  "pasv_groups 0 s =
     (if takeWhile is_digit s = [] then None else Some [takeWhile is_digit s])"
| "pasv_groups (Suc n) s =
     (if takeWhile is_digit s = [] then None
      else (case dropWhile is_digit s of
          [] \<Rightarrow> None
        | c # r \<Rightarrow>
            if c = CHR '','' then map_option ((#) (takeWhile is_digit s)) (pasv_groups n r)
            else None))"

text \<open>
  \<^verbatim>\<open>pasvRegexp.FindStringSubmatch(msg)\<close>: the leftmost match; the result holds the text
  of the whole match and then the six groups, and is \<^verbatim>\<open>nil\<close> without a match.
\<close>

fun FindStringSubmatch :: "string \<Rightarrow> string list option" where
  "FindStringSubmatch [] = None"
| "FindStringSubmatch (c # cs) =
     (case pasv_groups 5 (c # cs) of
        Some gs \<Rightarrow> Some (Join gs '','' # gs)
      | None \<Rightarrow> FindStringSubmatch cs)"

definition parsePasvReply :: "string \<Rightarrow> error + TCPAddr" where
  "parsePasvReply msg =
     (case FindStringSubmatch msg of
        None \<Rightarrow> Inl (ErrNew ''PASV reply provided no port'')
      | Some numberStrings \<Rightarrow>
          let numbers = map (\<lambda>s. (word_of_int (fst (Atoi s)) :: 8 word)) numberStrings
          in Inr \<lparr>IP = take 4 (drop 1 numbers),
                  Port = push_bit 8 (uint (numbers ! 5)) OR uint (numbers ! 6)\<rparr>)"

definition epsvStart :: string where
  "epsvStart = ''(|||''"

definition epsvEnd :: string where
  "epsvEnd = ''|)''"

definition parseEpsvReply :: "string \<Rightarrow> int \<times> error option" where
  "parseEpsvReply msg =
     (let start = LastIndex msg epsvStart in
      if start = - 1 then (0, Some (ErrNew ''EPSV reply provided no port''))
      else
        let start' = start + int (length epsvStart);
            fin = LastIndex msg epsvEnd
        in if fin = - 1 \<or> fin \<le> start' then (0, Some (ErrNew ''EPSV reply provided no port''))
           else Atoi (take (nat fin - nat start') (drop (nat start') msg)))"

text \<open>
  The first revision of \<^verbatim>\<open>obtainPassiveAddress\<close> (no context; its \<^verbatim>\<open>sendCommand\<close> is
  the unit \<^term>\<open>sendCmd\<close>): the IPv6 branch returns.
\<close>

definition obtainPassiveAddress_first :: "client \<Rightarrow> (error + TCPAddr) \<times> client" where
  "obtainPassiveAddress_first c =
     (if remote_network c = ''tcp6'' then
        (case sendCmd ''EPSV'' c of
           ((reply, Some err), c1) \<Rightarrow> (Inl err, c1)
         | ((reply, None), c1) \<Rightarrow>
             if Code reply \<noteq> CodeExtendedPassive then (Inl (ReplyErr reply), c1)
             else (case parseEpsvReply (Msg reply) of
                 (port, Some err) \<Rightarrow> (Inl err, c1)
               | (port, None) \<Rightarrow> (Inr \<lparr>IP = remote_ip c1, Port = port\<rparr>, c1)))
      else
        (case sendCmd ''PASV'' c of
           ((reply, Some err), c1) \<Rightarrow> (Inl err, c1)
         | ((reply, None), c1) \<Rightarrow>
             if Code reply \<noteq> CodePassive then (Inl (ReplyErr reply), c1)
             else (parsePasvReply (Msg reply), c1)))"

text \<open>The revision with a context: \<^verbatim>\<open>obtainPassiveAddress4\<close>, \<^verbatim>\<open>obtainPassiveAddress6\<close>.\<close>

definition obtainPassiveAddress4 :: "Context \<Rightarrow> client \<Rightarrow> ((error + TCPAddr) \<times> client) option" where
  "obtainPassiveAddress4 ctx c =
     (case sendCommand ctx ''PASV'' c of
        None \<Rightarrow> None
      | Some ((reply, Some err), c1) \<Rightarrow> Some (Inl err, c1)
      | Some ((reply, None), c1) \<Rightarrow>
          if Code reply \<noteq> CodePassive then Some (Inl (ReplyErr reply), c1)
          else Some (parsePasvReply (Msg reply), c1))"

definition obtainPassiveAddress6 :: "Context \<Rightarrow> client \<Rightarrow> ((error + TCPAddr) \<times> client) option" where
  "obtainPassiveAddress6 ctx c =
     (case sendCommand ctx ''EPSV'' c of
        None \<Rightarrow> None
      | Some ((reply, Some err), c1) \<Rightarrow> Some (Inl err, c1)
      | Some ((reply, None), c1) \<Rightarrow>
          if Code reply \<noteq> CodeExtendedPassive then Some (Inl (ReplyErr reply), c1)
          else (case parseEpsvReply (Msg reply) of
              (port, Some err) \<Rightarrow> Some (Inl err, c1)
            | (port, None) \<Rightarrow> Some (Inr \<lparr>IP = remote_ip c1, Port = port\<rparr>, c1)))"

text \<open>
  \<^verbatim>\<open>obtainPassiveAddress\<close> with a context: the call of \<^verbatim>\<open>obtainPassiveAddress6\<close> is a
  statement of its own, its results are dropped, and the function goes on to
  \<^verbatim>\<open>obtainPassiveAddress4\<close>.
\<close>

definition obtainPassiveAddress :: "Context \<Rightarrow> client \<Rightarrow> ((error + TCPAddr) \<times> client) option" where
  "obtainPassiveAddress ctx c =
     (if remote_network c = ''tcp6'' then
        (case obtainPassiveAddress6 ctx c of
           None \<Rightarrow> None
         | Some (dropped, c1) \<Rightarrow> obtainPassiveAddress4 ctx c1)
      else obtainPassiveAddress4 ctx c)"

subsection \<open>The data channel\<close>

text \<open>
  Dialling the data connection and closing it. The outcome of either, whatever its cause
  (a cancelled context included), is given by the world; a data connection is named by
  the address it was dialled at.
\<close>

definition DialContext :: "Context \<Rightarrow> TCPAddr \<Rightarrow> client \<Rightarrow> (error + TCPAddr) \<times> client" where
  "DialContext ctx addr c =
     (case dial_fails c of
        Some err \<Rightarrow> (Inl err, c)
      | None \<Rightarrow> (Inr addr, c\<lparr>trace := trace c @ [Dialed addr]\<rparr>))"

definition CloseData :: "client \<Rightarrow> error option \<times> client" where
  "CloseData c = (data_close_fails c, c\<lparr>trace := trace c @ [ClosedData]\<rparr>)"

definition openPassive :: "Context \<Rightarrow> client \<Rightarrow> ((error + TCPAddr) \<times> client) option" where
  "openPassive ctx c =
     (case obtainPassiveAddress ctx c of
        None \<Rightarrow> None
      | Some (Inl err, c1) \<Rightarrow> Some (Inl err, c1)
      | Some (Inr addr, c1) \<Rightarrow> Some (DialContext ctx addr c1))"

record transferConn =
  rwc :: TCPAddr
  tc_ctx :: Context

text \<open>
  \<^verbatim>\<open>transfer\<close>, the revision that returns the reply as well (\<^verbatim>\<open>transfer.go\<close>, the second
  text). The deferred function closes the data connection if the variable \<^verbatim>\<open>err\<close> of
  the function body is not nil when the function returns. The statement
  \<^verbatim>\<open>reply, err := c.sendCommand(ctx, command)\<close> assigns that variable, so it holds the
  error of the transfer command; returning a refused reply as the error does not assign
  it.
\<close>

definition transfer ::
  "Context \<Rightarrow> string \<Rightarrow> string \<Rightarrow> client \<Rightarrow> ((error + Reply \<times> transferConn) \<times> client) option" where
  "transfer ctx command dataType c =
     (case sendCommand ctx (''TYPE '' @ dataType) c of
        None \<Rightarrow> None
      | Some ((reply, Some err), c1) \<Rightarrow> Some (Inl err, c1)
      | Some ((reply, None), c1) \<Rightarrow>
          if \<not> PositiveComplete reply then Some (Inl (ReplyErr reply), c1)
          else (case openPassive ctx c1 of
              None \<Rightarrow> None
            | Some (Inl err, c2) \<Rightarrow> Some (Inl err, c2)
            | Some (Inr conn, c2) \<Rightarrow>
                (case sendCommand ctx command c2 of
                   None \<Rightarrow> None
                 | Some ((reply, Some err), c3) \<Rightarrow> Some (Inl err, snd (CloseData c3))
                 | Some ((reply, None), c3) \<Rightarrow>
                     if \<not> Positive reply then Some (Inl (ReplyErr reply), c3)
                     else Some (Inr (reply, \<lparr>rwc = conn, tc_ctx = ctx\<rparr>), c3))))"

text \<open>
  \<^verbatim>\<open>transfer\<close>, the revision before (\<^verbatim>\<open>transfer.go\<close>, the first text): the transfer
  command is sent in \<^verbatim>\<open>if reply, err := c.sendCommand(ctx, command); ...\<close>, whose
  \<^verbatim>\<open>err\<close> is a new variable of the \<^verbatim>\<open>if\<close> statement. The variable the deferred function
  reads is the one \<^verbatim>\<open>openPassive\<close> set, which is nil from then on.
\<close>

definition transfer_shadowed ::
  "Context \<Rightarrow> string \<Rightarrow> string \<Rightarrow> client \<Rightarrow> ((error + transferConn) \<times> client) option" where
  "transfer_shadowed ctx command dataType c =
     (case sendCommand ctx (''TYPE '' @ dataType) c of
        None \<Rightarrow> None
      | Some ((reply, Some err), c1) \<Rightarrow> Some (Inl err, c1)
      | Some ((reply, None), c1) \<Rightarrow>
          if \<not> PositiveComplete reply then Some (Inl (ReplyErr reply), c1)
          else (case openPassive ctx c1 of
              None \<Rightarrow> None
            | Some (Inl err, c2) \<Rightarrow> Some (Inl err, c2)
            | Some (Inr conn, c2) \<Rightarrow>
                (case sendCommand ctx command c2 of
                   None \<Rightarrow> None
                 | Some ((reply, Some err), c3) \<Rightarrow> Some (Inl err, c3)
                 | Some ((reply, None), c3) \<Rightarrow>
                     if \<not> Positive reply then Some (Inl (ReplyErr reply), c3)
                     else Some (Inr \<lparr>rwc = conn, tc_ctx = ctx\<rparr>, c3))))"

text \<open>
  \<^verbatim>\<open>Close\<close> of a \<^verbatim>\<open>transferConn\<close> (and \<^verbatim>\<open>close\<close> of the revision before, the same
  body): the data connection is closed, then one reply is read from the control
  connection with the reply reader.
\<close>

definition transferConn_Close :: "transferConn \<Rightarrow> client \<Rightarrow> error option \<times> client" where
  "transferConn_Close tc c =
     (case CloseData c of
        (Some err, c1) \<Rightarrow> (Some err, c1)
      | (None, c1) \<Rightarrow>
          (case response c1 of
             ((reply, Some err), c2) \<Rightarrow> (Some err, c2)
           | ((reply, None), c2) \<Rightarrow>
               if \<not> PositiveComplete reply then (Some (ReplyErr reply), c2)
               else (None, c2)))"

text \<open>
  The words of the claims about the two parsers: a run of decimal digits, the number it
  denotes, and an occurrence of a text at a position of a message (\<^term>\<open>occurs_at\<close>
  above).
\<close>

definition digit_run :: "string \<Rightarrow> bool" where
  "digit_run s = (s \<noteq> [] \<and> list_all is_digit s)"

definition dec_value :: "string \<Rightarrow> nat" where
  "dec_value s = foldl (\<lambda>n c. n * 10 + digit_val c) 0 s"

text \<open>
  A client for the examples: the peer has an IPv4 address, every connection works, and
  nothing has arrived or happened yet.
\<close>

definition idle_client :: client where
  "idle_client =
     \<lparr>incoming = [], write_fails = None, remote_network = ''tcp'',
      remote_ip = [192, 0, 2, 1], dial_fails = None, data_close_fails = None, trace = []\<rparr>"

declare read_rest.simps [simp del]
declare digits_of.simps [simp del]

section \<open>Properties\<close>

subsection \<open>Digits and the reply reader\<close>

lemma Reply0_simps: "Code Reply0 = 0" "Msg Reply0 = []"
  by (simp_all add: Reply0_def)

lemma digit_val_le: "is_digit c \<Longrightarrow> digit_val c \<le> 9"
  by (auto simp: is_digit_def digit_val_def)

lemma digit_char_val: "is_digit c \<Longrightarrow> digit_char (digit_val c) = c"
  by (auto simp: is_digit_def digit_val_def digit_char_def)

lemma digit_val_zero: "is_digit c \<Longrightarrow> (digit_val c = 0) = (c = CHR ''0'')"
  by (auto simp: is_digit_def digit_val_def)

lemma is_digit_not_sign: "is_digit c \<Longrightarrow> c \<noteq> CHR ''-'' \<and> c \<noteq> CHR ''+'' \<and> c \<noteq> CHR '',''"
  by (auto simp: is_digit_def)

lemma Atoi_three_digits:
  assumes "is_digit a" "is_digit b" "is_digit d"
  shows "Atoi [a, b, d] = (int (100 * digit_val a + 10 * digit_val b + digit_val d), None)"
proof -
  have le: "digit_val a \<le> 9" "digit_val b \<le> 9" "digit_val d \<le> 9"
    using assms by (simp_all add: digit_val_le)
  have sg: "a \<noteq> CHR ''-''" "a \<noteq> CHR ''+''"
    using assms(1) by (simp_all add: is_digit_not_sign)
  show ?thesis
    using assms le sg by (simp add: Atoi_def)
qed

lemma digits_of_three:
  assumes "1 \<le> x" "x \<le> 9" "y \<le> 9" "z \<le> 9"
  shows "digits_of (100 * x + 10 * y + z) = [digit_char x, digit_char y, digit_char z]"
proof -
  have d1: "(100 * x + 10 * y + z) div 10 = 10 * x + y" using assms by simp
  have m1: "(100 * x + 10 * y + z) mod 10 = z" using assms by (simp add: mod_add_left_eq [symmetric])
  have d2: "(10 * x + y) div 10 = x" using assms by simp
  have m2: "(10 * x + y) mod 10 = y" using assms by simp
  have "digits_of (100 * x + 10 * y + z) = digits_of (10 * x + y) @ [digit_char z]"
    using assms by (subst digits_of.simps) (simp add: d1 m1)
  also have "digits_of (10 * x + y) = digits_of x @ [digit_char y]"
    using assms by (subst digits_of.simps) (simp add: d2 m2)
  also have "digits_of x = [digit_char x]"
    using assms by (subst digits_of.simps) simp
  finally show ?thesis by simp
qed

lemma Itoa_int: "Itoa (int n) = digits_of n"
  by (simp add: Itoa_def)

lemma Itoa_three_digits:
  assumes "is_digit a" "is_digit b" "is_digit d" "a \<noteq> CHR ''0''"
  shows "Itoa (int (100 * digit_val a + 10 * digit_val b + digit_val d)) = [a, b, d]"
proof -
  have "1 \<le> digit_val a" using assms(1,4) digit_val_zero [of a] by simp
  then have "digits_of (100 * digit_val a + 10 * digit_val b + digit_val d) = [a, b, d]"
    using assms digits_of_three [of "digit_val a" "digit_val b" "digit_val d"]
    by (simp add: digit_val_le digit_char_val)
  then show ?thesis by (simp only: Itoa_int)
qed

lemma ReadLine_Line:
  "incoming c = Line l # rest \<Longrightarrow>
     ReadLine c = ((l, None), c\<lparr>incoming := rest, trace := trace c @ [ReadLn]\<rparr>)"
  by (simp add: ReadLine_def)

lemma ReadLine_ReadFail:
  "incoming c = ReadFail e # rest \<Longrightarrow>
     ReadLine c = (([], Some e), c\<lparr>incoming := rest, trace := trace c @ [ReadLn]\<rparr>)"
  by (simp add: ReadLine_def)

lemma ReadLine_Nil:
  "incoming c = [] \<Longrightarrow> ReadLine c = (([], Some EOF), c\<lparr>trace := trace c @ [ReadLn]\<rparr>)"
  by (simp add: ReadLine_def)

lemma Join_snoc: "ls \<noteq> [] \<Longrightarrow> Join (ls @ [x]) sep = Join ls sep @ sep @ x"
  by (induction ls sep rule: Join.induct) auto

text \<open>The loop of the reader, run over lines that are no terminator.\<close>

lemma read_rest_conts:
  assumes "\<forall>l\<in>set conts. \<not> HasPrefix l p"
    and "incoming c = map Line conts @ tail"
  shows "read_rest p ls c =
    read_rest p (ls @ conts) (c\<lparr>incoming := tail, trace := trace c @ replicate (length conts) ReadLn\<rparr>)"
  using assms
proof (induction conts arbitrary: ls c)
  case Nil
  then have "tail = incoming c" by simp
  then show ?case by simp
next
  case (Cons l conts)
  let ?c1 = "c\<lparr>incoming := map Line conts @ tail, trace := trace c @ [ReadLn]\<rparr>"
  have rl: "ReadLine c = ((l, None), ?c1)"
    using Cons.prems(2) by (simp add: ReadLine_Line)
  have np: "\<not> HasPrefix l p" using Cons.prems(1) by simp
  have "read_rest p ls c = read_rest p (ls @ [l]) ?c1"
    by (subst read_rest.simps) (simp add: rl np)
  also have "\<dots> = read_rest p ((ls @ [l]) @ conts)
      (?c1\<lparr>incoming := tail, trace := trace ?c1 @ replicate (length conts) ReadLn\<rparr>)"
    using Cons.prems(1) by (intro Cons.IH) simp_all
  finally show ?case by (simp add: replicate_app_Cons_same)
qed

lemma read_rest_terminator:
  assumes "incoming c = Line (p @ final) # rest"
  shows "read_rest p ls c =
    ((ls @ [final], None), c\<lparr>incoming := rest, trace := trace c @ [ReadLn]\<rparr>)"
  using assms by (subst read_rest.simps) (simp add: ReadLine_Line HasPrefix_def)

lemma read_rest_fail:
  assumes "incoming c = ReadFail e # rest"
  shows "read_rest p ls c =
    ((ls, Some e), c\<lparr>incoming := rest, trace := trace c @ [ReadLn]\<rparr>)"
  using assms by (subst read_rest.simps) (simp add: ReadLine_ReadFail)

lemma read_rest_eof:
  assumes "incoming c = []"
  shows "read_rest p ls c = ((ls, Some EOF), c\<lparr>trace := trace c @ [ReadLn]\<rparr>)"
  using assms by (subst read_rest.simps) (simp add: ReadLine_Nil)

lemma Atoi_error_form: "Atoi s = (v, Some e) \<Longrightarrow> \<exists>k. e = NumError s k"
  by (auto simp: Atoi_def Let_def split: if_splits sum.splits numerr.splits)

text \<open>
  Claim C9. A first line shorter than four characters, and a first line whose fourth
  character is neither a space nor a hyphen, make the reply reader return an error and
  the zero \<^verbatim>\<open>Reply\<close>: the error for a short line in the first case; in the second
  the error for the missing space, or the error of the code conversion (which names the
  three-character prefix) when the prefix is no number.
\<close>

theorem response_framing_error:
  assumes "incoming c = Line line # rest"
  shows "(length line < 4 \<longrightarrow>
            response c = ((Reply0, Some (ErrNew ''Short response line in FTP'')),
                          c\<lparr>incoming := rest, trace := trace c @ [ReadLn]\<rparr>))
       \<and> (4 \<le> length line \<and> line ! 3 \<noteq> CHR '' '' \<and> line ! 3 \<noteq> CHR ''-'' \<longrightarrow>
            (\<exists>e. response c = ((Reply0, Some e), c\<lparr>incoming := rest, trace := trace c @ [ReadLn]\<rparr>)
               \<and> (e = ErrNew ''Expected space after FTP response code''
                    \<or> (\<exists>k. e = NumError (take 3 line) k))))"
proof (intro conjI impI)
  assume "length line < 4"
  then show "response c = ((Reply0, Some (ErrNew ''Short response line in FTP'')),
                          c\<lparr>incoming := rest, trace := trace c @ [ReadLn]\<rparr>)"
    using assms by (simp add: response_def ReadLine_Line)
next
  assume a: "4 \<le> length line \<and> line ! 3 \<noteq> CHR '' '' \<and> line ! 3 \<noteq> CHR ''-''"
  obtain v eo where at: "Atoi (take 3 line) = (v, eo)" by (cases "Atoi (take 3 line)")
  show "\<exists>e. response c = ((Reply0, Some e), c\<lparr>incoming := rest, trace := trace c @ [ReadLn]\<rparr>)
               \<and> (e = ErrNew ''Expected space after FTP response code''
                    \<or> (\<exists>k. e = NumError (take 3 line) k))"
  proof (cases eo)
    case None
    then show ?thesis using assms a at by (simp add: response_def ReadLine_Line)
  next
    case (Some e)
    then have "\<exists>k. e = NumError (take 3 line) k" using at Atoi_error_form by blast
    then show ?thesis using assms a at Some by (simp add: response_def ReadLine_Line)
  qed
qed

theorem response_framing_error_witness:
  "response (idle_client\<lparr>incoming := [Line ''20'']\<rparr>) =
     ((Reply0, Some (ErrNew ''Short response line in FTP'')),
      idle_client\<lparr>incoming := [], trace := [ReadLn]\<rparr>)
   \<and> (\<exists>e. response (idle_client\<lparr>incoming := [Line ''200x'']\<rparr>) =
          ((Reply0, Some e), idle_client\<lparr>incoming := [], trace := [ReadLn]\<rparr>)
        \<and> (e = ErrNew ''Expected space after FTP response code''
             \<or> (\<exists>k. e = NumError ''200'' k)))"
  using response_framing_error [of "idle_client\<lparr>incoming := [Line ''20'']\<rparr>" "''20''" "[]"]
    response_framing_error [of "idle_client\<lparr>incoming := [Line ''200x'']\<rparr>" "''200x''" "[]"]
  by (simp add: idle_client_def)

lemma response_multi:
  assumes at: "Atoi (take 3 first) = (code, None)"
    and len: "4 \<le> length first" and dash: "first ! 3 = CHR ''-''"
    and inc: "incoming c = Line first # others"
  shows "response c =
    (case read_rest (Itoa code @ '' '') [drop 4 first] (c\<lparr>incoming := others, trace := trace c @ [ReadLn]\<rparr>) of
       ((lines, err), c2) \<Rightarrow> ((\<lparr>Code = code, Msg = Join lines [CHR 0x0A]\<rparr>, err), c2))"
  using assms by (simp add: response_def ReadLine_Line)

text \<open>
  Claim C5. A valid multi-line reply: the first line is a three-digit code (no leading
  zero), a hyphen and a text; then come continuation lines, none of which begins with
  the code and a space; then the terminator, which does. The reader returns the code and,
  as the message, the text of the first line, the continuation lines and the rest of the
  terminator after its code and space, joined by line feeds in this order, with no
  error; it has read exactly these lines.
\<close>

theorem response_multiline:
  assumes "is_digit a" "is_digit b" "is_digit d" "a \<noteq> CHR ''0''"
    and "\<forall>l\<in>set conts. \<not> HasPrefix l ([a, b, d] @ '' '')"
    and "incoming c =
           Line ([a, b, d] @ ''-'' @ text) # map Line conts @ Line ([a, b, d] @ '' '' @ final) # rest"
  shows "response c =
     ((\<lparr>Code = int (100 * digit_val a + 10 * digit_val b + digit_val d),
        Msg = Join (text # conts @ [final]) [CHR 0x0A]\<rparr>, None),
      c\<lparr>incoming := rest, trace := trace c @ replicate (length conts + 2) ReadLn\<rparr>)"
proof -
  let ?code = "int (100 * digit_val a + 10 * digit_val b + digit_val d)"
  let ?p = "[a, b, d] @ '' ''"
  let ?c1 = "c\<lparr>incoming := map Line conts @ Line (?p @ final) # rest, trace := trace c @ [ReadLn]\<rparr>"
  let ?c2 = "?c1\<lparr>incoming := Line (?p @ final) # rest, trace := trace ?c1 @ replicate (length conts) ReadLn\<rparr>"
  have at: "Atoi (take 3 ([a, b, d] @ ''-'' @ text)) = (?code, None)"
    using assms(1-3) by (simp add: Atoi_three_digits)
  have it: "Itoa ?code @ '' '' = ?p"
    by (simp only: Itoa_three_digits [OF assms(1-4)])
  have r1: "read_rest ?p [text] ?c1 = read_rest ?p ([text] @ conts) ?c2"
    using assms(5) by (intro read_rest_conts) simp_all
  have r2: "read_rest ?p ([text] @ conts) ?c2 =
      (((([text] @ conts) @ [final]), None), ?c2\<lparr>incoming := rest, trace := trace ?c2 @ [ReadLn]\<rparr>)"
    by (intro read_rest_terminator) simp
  have "response c =
    (case read_rest (Itoa ?code @ '' '') [drop 4 ([a, b, d] @ ''-'' @ text)] ?c1 of
       ((lines, err), c2) \<Rightarrow> ((\<lparr>Code = ?code, Msg = Join lines [CHR 0x0A]\<rparr>, err), c2))"
    using at assms(6) by (intro response_multi) simp_all
  also have "\<dots> = ((\<lparr>Code = ?code, Msg = Join (([text] @ conts) @ [final]) [CHR 0x0A]\<rparr>, None),
      ?c2\<lparr>incoming := rest, trace := trace ?c2 @ [ReadLn]\<rparr>)"
    using r1 r2 by (simp only: it) simp
  finally show ?thesis by (simp add: replicate_app_Cons_same)
qed

theorem response_multiline_witness:
  "response (idle_client\<lparr>incoming :=
       [Line ''123-First line'', Line ''Second line'',
        Line ''  234 A line beginning with numbers'', Line ''123 The last line'']\<rparr>) =
     ((\<lparr>Code = 123,
        Msg = ''First line'' @ [CHR 0x0A] @ ''Second line'' @ [CHR 0x0A]
              @ ''  234 A line beginning with numbers'' @ [CHR 0x0A] @ ''The last line''\<rparr>, None),
      idle_client\<lparr>incoming := [], trace := [ReadLn, ReadLn, ReadLn, ReadLn]\<rparr>)"
  using response_multiline [of "CHR ''1''" "CHR ''2''" "CHR ''3''"
      "[''Second line'', ''  234 A line beginning with numbers'']"
      "idle_client\<lparr>incoming :=
       [Line ''123-First line'', Line ''Second line'',
        Line ''  234 A line beginning with numbers'', Line ''123 The last line'']\<rparr>"
      "''First line''" "''The last line''" "[]"]
  by (simp add: is_digit_def HasPrefix_def digit_val_def idle_client_def numeral_eq_Suc)

text \<open>
  Claim C8. The transport fails while a multi-line reply is being read, before a
  terminator was seen (a failed read, or the end of the input): the reader returns the
  reply with the code and the lines gathered so far, joined by line feeds, together with
  the error of the transport.
\<close>

theorem response_partial_reply:
  assumes "Atoi (take 3 first) = (code, None)" "4 \<le> length first" "first ! 3 = CHR ''-''"
    and "\<forall>l\<in>set conts. \<not> HasPrefix l (Itoa code @ '' '')"
  shows "(incoming c = Line first # map Line conts @ ReadFail e # rest \<longrightarrow>
            response c = ((\<lparr>Code = code, Msg = Join (drop 4 first # conts) [CHR 0x0A]\<rparr>, Some e),
                          c\<lparr>incoming := rest, trace := trace c @ replicate (length conts + 2) ReadLn\<rparr>))
       \<and> (incoming c = Line first # map Line conts \<longrightarrow>
            response c = ((\<lparr>Code = code, Msg = Join (drop 4 first # conts) [CHR 0x0A]\<rparr>, Some EOF),
                          c\<lparr>incoming := [], trace := trace c @ replicate (length conts + 2) ReadLn\<rparr>))"
proof (intro conjI impI)
  let ?p = "Itoa code @ '' ''"
  assume inc: "incoming c = Line first # map Line conts @ ReadFail e # rest"
  let ?c1 = "c\<lparr>incoming := map Line conts @ ReadFail e # rest, trace := trace c @ [ReadLn]\<rparr>"
  let ?c2 = "?c1\<lparr>incoming := ReadFail e # rest, trace := trace ?c1 @ replicate (length conts) ReadLn\<rparr>"
  have r1: "read_rest ?p [drop 4 first] ?c1 = read_rest ?p ([drop 4 first] @ conts) ?c2"
    using assms(4) by (intro read_rest_conts) simp_all
  have r2: "read_rest ?p ([drop 4 first] @ conts) ?c2 =
      (([drop 4 first] @ conts, Some e), ?c2\<lparr>incoming := rest, trace := trace ?c2 @ [ReadLn]\<rparr>)"
    by (intro read_rest_fail) simp
  show "response c = ((\<lparr>Code = code, Msg = Join (drop 4 first # conts) [CHR 0x0A]\<rparr>, Some e),
                          c\<lparr>incoming := rest, trace := trace c @ replicate (length conts + 2) ReadLn\<rparr>)"
    using response_multi [OF assms(1-3) inc] r1 r2
    by (simp add: replicate_app_Cons_same)
next
  let ?p = "Itoa code @ '' ''"
  assume inc: "incoming c = Line first # map Line conts"
  then have inc': "incoming c = Line first # map Line conts @ []" by simp
  let ?c1 = "c\<lparr>incoming := map Line conts @ [], trace := trace c @ [ReadLn]\<rparr>"
  let ?c2 = "?c1\<lparr>incoming := [], trace := trace ?c1 @ replicate (length conts) ReadLn\<rparr>"
  have r1: "read_rest ?p [drop 4 first] ?c1 = read_rest ?p ([drop 4 first] @ conts) ?c2"
    using assms(4) by (intro read_rest_conts) simp_all
  have r2: "read_rest ?p ([drop 4 first] @ conts) ?c2 =
      (([drop 4 first] @ conts, Some EOF), ?c2\<lparr>trace := trace ?c2 @ [ReadLn]\<rparr>)"
    by (intro read_rest_eof) simp
  show "response c = ((\<lparr>Code = code, Msg = Join (drop 4 first # conts) [CHR 0x0A]\<rparr>, Some EOF),
                          c\<lparr>incoming := [], trace := trace c @ replicate (length conts + 2) ReadLn\<rparr>)"
    using response_multi [OF assms(1-3) inc'] r1 r2
    by (simp add: replicate_app_Cons_same)
qed

theorem response_partial_reply_witness:
  "response (idle_client\<lparr>incoming :=
       [Line ''123-First line'', Line ''Second line'', ReadFail (IOErr ''connection reset'')]\<rparr>) =
     ((\<lparr>Code = 123, Msg = ''First line'' @ [CHR 0x0A] @ ''Second line''\<rparr>,
       Some (IOErr ''connection reset'')),
      idle_client\<lparr>incoming := [], trace := [ReadLn, ReadLn, ReadLn]\<rparr>)
   \<and> response (idle_client\<lparr>incoming := [Line ''123-First line'', Line ''Second line'']\<rparr>) =
     ((\<lparr>Code = 123, Msg = ''First line'' @ [CHR 0x0A] @ ''Second line''\<rparr>, Some EOF),
      idle_client\<lparr>incoming := [], trace := [ReadLn, ReadLn, ReadLn]\<rparr>)"
proof -
  have a: "Atoi (take 3 ''123-First line'') = (123, None)"
    by (simp add: Atoi_def is_digit_def digit_val_def)
  have i: "Itoa 123 = ''123''"
    by (simp add: Itoa_def digits_of.simps digit_char_def)
  have h: "\<forall>l\<in>set [''Second line'']. \<not> HasPrefix l (Itoa 123 @ '' '')"
    by (simp add: i HasPrefix_def)
  show ?thesis
    using response_partial_reply [OF a _ _ h,
        of "idle_client\<lparr>incoming :=
          [Line ''123-First line'', Line ''Second line'', ReadFail (IOErr ''connection reset'')]\<rparr>"
          "IOErr ''connection reset''" "[]"]
      response_partial_reply [OF a _ _ h,
        of "idle_client\<lparr>incoming := [Line ''123-First line'', Line ''Second line'']\<rparr>"]
    by (simp add: idle_client_def numeral_eq_Suc)
qed

subsection \<open>The extended passive reply\<close>

lemma foldl_digits_ge: "n \<le> foldl (\<lambda>n c. n * 10 + digit_val c) n s"
proof (induction s arbitrary: n)
  case Nil
  show ?case by simp
next
  case (Cons c cs)
  have "n \<le> n * 10 + digit_val c" by simp
  also have "\<dots> \<le> foldl (\<lambda>n c. n * 10 + digit_val c) (n * 10 + digit_val c) cs"
    by (rule Cons.IH)
  finally show ?case by simp
qed

lemma parse_digits_run_bound:
  assumes M: "M = 2 ^ 64 - 1" and ds: "list_all is_digit s" and le: "n \<le> M"
  shows "parse_digits n s =
       (if foldl (\<lambda>n c. n * 10 + digit_val c) n s \<le> M
        then Inr (foldl (\<lambda>n c. n * 10 + digit_val c) n s) else Inl ErrRange)"
  using ds le
proof (induction s arbitrary: n)
  case Nil
  then show ?case by simp
next
  case (Cons c cs)
  have step: "parse_digits n (c # cs) =
     (if \<not> is_digit c then Inl ErrSyntax
      else if n * 10 + digit_val c > M then Inl ErrRange
      else parse_digits (n * 10 + digit_val c) cs)"
    unfolding M by (rule parse_digits.simps)
  have d: "is_digit c" "list_all is_digit cs" using Cons.prems(1) by simp_all
  show ?case
  proof (cases "n * 10 + digit_val c > M")
    case True
    with foldl_digits_ge [of "n * 10 + digit_val c" cs]
    have "\<not> foldl (\<lambda>n c. n * 10 + digit_val c) (n * 10 + digit_val c) cs \<le> M"
      by linarith
    with True d show ?thesis by (simp add: step del: parse_digits.simps)
  next
    case False
    with d Cons.IH [of "n * 10 + digit_val c"] show ?thesis
      by (simp add: step del: parse_digits.simps)
  qed
qed

lemma Atoi_digit_run:
  assumes "digit_run s"
  shows "Atoi s = (if dec_value s < 2 ^ 63 then (int (dec_value s), None)
                   else (2 ^ 63 - 1, Some (NumError s ErrRange)))"
proof -
  from assms obtain c cs where s: "s = c # cs" and d: "is_digit c" "list_all is_digit cs"
    by (cases s) (auto simp: digit_run_def)
  have sg: "c \<noteq> CHR ''-''" "c \<noteq> CHR ''+''" using d(1) by (simp_all add: is_digit_not_sign)
  have pd: "parse_digits 0 s = (if dec_value s \<le> 2 ^ 64 - 1 then Inr (dec_value s) else Inl ErrRange)"
    unfolding dec_value_def using d s by (intro parse_digits_run_bound) simp_all
  have "Atoi s = (case parse_digits 0 s of
               Inl ErrSyntax \<Rightarrow> (0, Some (NumError s ErrSyntax))
             | Inl ErrRange \<Rightarrow> (2 ^ 63 - 1, Some (NumError s ErrRange))
             | Inr un \<Rightarrow>
                 if un \<ge> 2 ^ 63 then (2 ^ 63 - 1, Some (NumError s ErrRange))
                 else (int un, None))"
    using sg unfolding s
    by (simp add: Atoi_def Let_def del: parse_digits.simps split: sum.splits numerr.splits)
  also have "\<dots> = (if dec_value s < 2 ^ 63 then (int (dec_value s), None)
                   else (2 ^ 63 - 1, Some (NumError s ErrRange)))"
    by (simp add: pd)
  finally show ?thesis .
qed

lemma filter_rev_upt_none: "(\<forall>j<m. \<not> P j) \<Longrightarrow> filter P (rev [0..<m]) = []"
  by (simp add: filter_empty_conv)

lemma filter_rev_upt_last:
  "i < m \<Longrightarrow> P i \<Longrightarrow> (\<forall>j. i < j \<and> j < m \<longrightarrow> \<not> P j) \<Longrightarrow> \<exists>r. filter P (rev [0..<m]) = i # r"
proof (induction m)
  case 0
  then show ?case by simp
next
  case (Suc m)
  show ?case
  proof (cases "i = m")
    case True
    with Suc.prems show ?thesis by simp
  next
    case False
    with Suc.prems have "i < m" "\<not> P m" by auto
    with Suc show ?thesis by simp
  qed
qed

lemma occurs_at_le: "occurs_at sub s i \<Longrightarrow> i \<le> length s"
  by (simp add: occurs_at_def)

lemma LastIndex_none: "(\<forall>i. \<not> occurs_at sub s i) \<Longrightarrow> LastIndex s sub = - 1"
  by (simp add: LastIndex_def filter_rev_upt_none)

lemma LastIndex_last:
  assumes "occurs_at sub s i" "\<forall>j>i. \<not> occurs_at sub s j"
  shows "LastIndex s sub = int i"
proof -
  have "i < Suc (length s)" using assms(1) occurs_at_le by fastforce
  then obtain r where "filter (occurs_at sub s) (rev [0..<Suc (length s)]) = i # r"
    using filter_rev_upt_last [of i "Suc (length s)" "occurs_at sub s"] assms by blast
  then show ?thesis by (simp add: LastIndex_def)
qed

lemma no_later_occurrence:
  "(\<forall>j>i. \<not> occurs_at sub s j) = list_all (\<lambda>j. \<not> occurs_at sub s j) [Suc i..<Suc (length s)]"
proof
  assume "\<forall>j>i. \<not> occurs_at sub s j"
  then show "list_all (\<lambda>j. \<not> occurs_at sub s j) [Suc i..<Suc (length s)]"
    by (auto simp: list_all_iff simp del: upt_Suc)
next
  assume a: "list_all (\<lambda>j. \<not> occurs_at sub s j) [Suc i..<Suc (length s)]"
  show "\<forall>j>i. \<not> occurs_at sub s j"
  proof (intro allI impI notI)
    fix j assume "i < j" "occurs_at sub s j"
    then have "j \<in> set [Suc i..<Suc (length s)]" using occurs_at_le [of sub s j] by (auto simp del: upt_Suc)
    with a \<open>occurs_at sub s j\<close> show False unfolding list_all_iff by blast
  qed
qed

lemma no_occurrence:
  "(\<forall>j. \<not> occurs_at sub s j) = list_all (\<lambda>j. \<not> occurs_at sub s j) [0..<Suc (length s)]"
proof
  assume "\<forall>j. \<not> occurs_at sub s j"
  then show "list_all (\<lambda>j. \<not> occurs_at sub s j) [0..<Suc (length s)]"
    by (auto simp: list_all_iff simp del: upt_Suc)
next
  assume a: "list_all (\<lambda>j. \<not> occurs_at sub s j) [0..<Suc (length s)]"
  show "\<forall>j. \<not> occurs_at sub s j"
  proof (intro allI notI)
    fix j assume "occurs_at sub s j"
    then have "j \<in> set [0..<Suc (length s)]" using occurs_at_le [of sub s j] by (auto simp del: upt_Suc)
    with a \<open>occurs_at sub s j\<close> show False unfolding list_all_iff by blast
  qed
qed

text \<open>
  Claim C6. \<^verbatim>\<open>parseEpsvReply\<close> works from the last occurrence of the start delimiter
  and the last occurrence of the end delimiter. If either is missing the error is
  "EPSV reply provided no port"; so it is if the end delimiter does not lie strictly
  after the end of the start delimiter (misordered delimiters, or nothing between them).
  Otherwise the result is the integer conversion of the text between the two, which for a
  run of decimal digits below \<open>2^63\<close> is the number it denotes. The reply of the test
  gives port 1031.
\<close>

theorem parseEpsvReply_last_delimiters:
  "((\<forall>i. \<not> occurs_at epsvStart msg i) \<or> (\<forall>j. \<not> occurs_at epsvEnd msg j) \<longrightarrow>
       parseEpsvReply msg = (0, Some (ErrNew ''EPSV reply provided no port'')))
   \<and> (occurs_at epsvStart msg i \<and> (\<forall>i'>i. \<not> occurs_at epsvStart msg i')
        \<and> occurs_at epsvEnd msg j \<and> (\<forall>j'>j. \<not> occurs_at epsvEnd msg j') \<longrightarrow>
       parseEpsvReply msg =
         (if j \<le> i + length epsvStart then (0, Some (ErrNew ''EPSV reply provided no port''))
          else Atoi (take (j - (i + length epsvStart)) (drop (i + length epsvStart) msg))))
   \<and> (digit_run p \<and> dec_value p < 2 ^ 63 \<longrightarrow> Atoi p = (int (dec_value p), None))
   \<and> parseEpsvReply ''229 Entering Extended Passive Mode. (|||1031|)'' = (1031, None)"
proof (intro conjI impI)
  assume "(\<forall>i. \<not> occurs_at epsvStart msg i) \<or> (\<forall>j. \<not> occurs_at epsvEnd msg j)"
  then show "parseEpsvReply msg = (0, Some (ErrNew ''EPSV reply provided no port''))"
  proof
    assume "\<forall>i. \<not> occurs_at epsvStart msg i"
    then show ?thesis by (simp add: parseEpsvReply_def LastIndex_none)
  next
    assume "\<forall>j. \<not> occurs_at epsvEnd msg j"
    then show ?thesis by (simp add: parseEpsvReply_def LastIndex_none Let_def)
  qed
next
  assume a: "occurs_at epsvStart msg i \<and> (\<forall>i'>i. \<not> occurs_at epsvStart msg i')
        \<and> occurs_at epsvEnd msg j \<and> (\<forall>j'>j. \<not> occurs_at epsvEnd msg j')"
  then have s: "LastIndex msg epsvStart = int i" and e: "LastIndex msg epsvEnd = int j"
    by (simp_all add: LastIndex_last)
  have n: "nat (int j) - nat (int i + int (length epsvStart)) = j - (i + length epsvStart)"
    by (simp add: nat_add_distrib)
  show "parseEpsvReply msg =
         (if j \<le> i + length epsvStart then (0, Some (ErrNew ''EPSV reply provided no port''))
          else Atoi (take (j - (i + length epsvStart)) (drop (i + length epsvStart) msg)))"
    by (simp add: parseEpsvReply_def s e Let_def nat_add_distrib)
next
  assume "digit_run p \<and> dec_value p < 2 ^ 63"
  then show "Atoi p = (int (dec_value p), None)" by (simp add: Atoi_digit_run)
next
  let ?m = "''229 Entering Extended Passive Mode. (|||1031|)''"
  have s: "LastIndex ?m ''(|||'' = 36"
    by (simp add: LastIndex_def occurs_at_def)
  have e: "LastIndex ?m ''|)'' = 44"
    by (simp add: LastIndex_def occurs_at_def)
  show "parseEpsvReply ?m = (1031, None)"
    by (simp add: parseEpsvReply_def epsvStart_def epsvEnd_def s e Let_def
        Atoi_def is_digit_def digit_val_def)
qed

text \<open>
  With the start delimiter twice, the last one is used; a start delimiter after the last
  end delimiter, or no delimiter at all, is the error.
\<close>

theorem parseEpsvReply_last_delimiters_witness:
  "parseEpsvReply ''(|||21|) (|||1031|)'' = (1031, None)
   \<and> parseEpsvReply ''(|||1031|) (|||'' = (0, Some (ErrNew ''EPSV reply provided no port''))
   \<and> parseEpsvReply ''229 Entering Passive Mode'' = (0, Some (ErrNew ''EPSV reply provided no port''))"
proof -
  let ?m = "''(|||21|) (|||1031|)''"
  let ?k = "''(|||1031|) (|||''"
  let ?z = "''229 Entering Passive Mode''"
  have m: "occurs_at epsvStart ?m 9 \<and> (\<forall>i'>9. \<not> occurs_at epsvStart ?m i')
        \<and> occurs_at epsvEnd ?m 17 \<and> (\<forall>j'>17. \<not> occurs_at epsvEnd ?m j')"
    by (simp add: no_later_occurrence) (simp add: occurs_at_def epsvStart_def epsvEnd_def upt_rec)
  have k: "occurs_at epsvStart ?k 11 \<and> (\<forall>i'>11. \<not> occurs_at epsvStart ?k i')
        \<and> occurs_at epsvEnd ?k 8 \<and> (\<forall>j'>8. \<not> occurs_at epsvEnd ?k j')"
    by (simp add: no_later_occurrence) (simp add: occurs_at_def epsvStart_def epsvEnd_def upt_rec)
  have z: "\<forall>i. \<not> occurs_at epsvStart ?z i"
    by (simp add: no_occurrence) (simp add: occurs_at_def epsvStart_def upt_rec)
  have a: "Atoi ''1031'' = (1031, None)" by (simp add: Atoi_def is_digit_def digit_val_def)
  show ?thesis
    using parseEpsvReply_last_delimiters [of ?m 9 17 "''1031''"]
      parseEpsvReply_last_delimiters [of ?k 11 8 "''1031''"]
      parseEpsvReply_last_delimiters [of ?z 0 0 "''1031''"] m k z a
    by (simp add: epsvStart_def)
qed

end
